theory Spec2Isabelle
  imports Main
begin

section \<open>Strings and the Python string operations the notebook uses\<close>

text \<open>
  The notebook \<^verbatim>\<open>nb03_modeling-part2.ipynb\<close> works on Python \<^verbatim>\<open>str\<close> values.
  They are modelled as HOL strings, one \<^typ>\<open>char\<close> per code point, which covers the
  code points 0 to 255. The regular expression of \<^verbatim>\<open>tokenize\<close> only tells ASCII letters
  and digits from everything else, so nothing is lost on the part the claims are about.
\<close>

definition is_alnum :: "char \<Rightarrow> bool" where
  \<comment> \<open>the character class \<^verbatim>\<open>[0-9a-zA-Z]\<close>\<close>
  "is_alnum c =
     (let n = (of_char c :: nat)
      in (48 \<le> n \<and> n \<le> 57) \<or> (65 \<le> n \<and> n \<le> 90) \<or> (97 \<le> n \<and> n \<le> 122))"

definition is_upper :: "char \<Rightarrow> bool" where
  \<comment> \<open>a cased character that \<^verbatim>\<open>str.lower\<close> changes: A to Z, and the Latin-1 capitals\<close>
  "is_upper c =
     (let n = (of_char c :: nat)
      in (65 \<le> n \<and> n \<le> 90) \<or> (192 \<le> n \<and> n \<le> 222 \<and> n \<noteq> 215))"

definition is_space :: "char \<Rightarrow> bool" where
  \<comment> \<open>\<^verbatim>\<open>str.isspace\<close> on one character, the set \<^verbatim>\<open>str.strip()\<close> removes\<close>
  "is_space c =
     (let n = (of_char c :: nat)
      in (9 \<le> n \<and> n \<le> 13) \<or> (28 \<le> n \<and> n \<le> 32) \<or> n = 133 \<or> n = 160)"

definition lower_char :: "char \<Rightarrow> char" where
  "lower_char c = (if is_upper c then char_of ((of_char c :: nat) + 32) else c)"

definition lower :: "string \<Rightarrow> string" where
  \<comment> \<open>\<^verbatim>\<open>str.lower()\<close>\<close>
  "lower s = map lower_char s"

definition strip :: "string \<Rightarrow> string" where
  \<comment> \<open>\<^verbatim>\<open>str.strip()\<close>: leading and trailing whitespace removed\<close>
  "strip s = rev (dropWhile is_space (rev (dropWhile is_space s)))"

fun join :: "string \<Rightarrow> string list \<Rightarrow> string" where
  \<comment> \<open>\<^verbatim>\<open>sep.join(xs)\<close>\<close>
  "join sep [] = []"
| "join sep [x] = x"
| "join sep (x # y # ys) = x @ sep @ join sep (y # ys)"

section \<open>The Text Normalizer: \<^verbatim>\<open>tokenize\<close>\<close>

text \<open>
  Python is dynamically typed: \<^verbatim>\<open>tokenize\<close> can be called with \<^verbatim>\<open>None\<close> (a missing
  comment of the data frame) as well as with a string.
\<close>

datatype pyobj = PyStr string | PyNone

datatype error = TypeError | IndexError | ValueError

text \<open>
  The NLTK resources are not part of the repository. They are parameters of the model:
  the word tokenizer \<^verbatim>\<open>word_tokenize\<close>, the method \<^verbatim>\<open>WordNetLemmatizer().lemmatize\<close>,
  the list \<^verbatim>\<open>stopwords.words('english')\<close> and the list \<^verbatim>\<open>nltk.corpus.words.words()\<close>.
\<close>

record nltk =
  word_tokenize :: "string \<Rightarrow> string list"
  lemmatize :: "string \<Rightarrow> string"
  stopwords_english :: "string list"
  words_words :: "string list"

definition STOP_WORDS_ENG :: "nltk \<Rightarrow> string list" where
  \<comment> \<open>\<^verbatim>\<open>STOP_WORDS_ENG = stopwords.words('english')\<close>, then \<^verbatim>\<open>.extend([...])\<close>\<close>
  "STOP_WORDS_ENG e =
     stopwords_english e @ [''la'', ''de'', ''le'', ''pa'', ''del'', ''el'']"

definition ENGLISH_VOCABULARY :: "nltk \<Rightarrow> string list" where
  \<comment> \<open>\<^verbatim>\<open>list(w.lower() for w in nltk.corpus.words.words())\<close>\<close>
  "ENGLISH_VOCABULARY e = map lower (words_words e)"

definition clean :: "string \<Rightarrow> string" where
  \<comment> \<open>the substitution \<^verbatim>\<open>r'[^0-9a-zA-Z]'\<close> to \<^verbatim>\<open>' '\<close> on a string\<close>
  "clean s = map (\<lambda>c. if is_alnum c then c else CHR '' '') s"

definition re_sub :: "pyobj \<Rightarrow> error + string" where
  \<comment> \<open>\<^verbatim>\<open>re.sub(r'[^0-9a-zA-Z]', ' ', text)\<close>; \<^verbatim>\<open>re.sub\<close> raises \<^verbatim>\<open>TypeError\<close> on
      an argument that is not a string\<close>
  "re_sub text =
     (case text of
        PyNone \<Rightarrow> Inl TypeError
      | PyStr s \<Rightarrow> Inr (clean s))"

definition english_tokens :: "nltk \<Rightarrow> string list \<Rightarrow> string list" where
  \<comment> \<open>\<^verbatim>\<open>[word for word in tokens if word in ENGLISH_VOCABULARY and len(word) > 1]\<close>\<close>
  "english_tokens e tokens =
     filter (\<lambda>word. word \<in> set (ENGLISH_VOCABULARY e) \<and> length word > 1) tokens"

definition tokens_lem :: "nltk \<Rightarrow> string list \<Rightarrow> string list" where
  \<comment> \<open>\<^verbatim>\<open>[lemmatizer.lemmatize(token.strip().lower()) for token in tokens
          if token not in STOP_WORDS_ENG]\<close>\<close>
  "tokens_lem e tokens =
     map (\<lambda>token. lemmatize e (lower (strip token)))
       (filter (\<lambda>token. token \<notin> set (STOP_WORDS_ENG e)) tokens)"

definition tokenize :: "nltk \<Rightarrow> pyobj \<Rightarrow> error + string list" where
  "tokenize e text =
     (case re_sub text of
        Inl err \<Rightarrow> Inl err
      | Inr text' \<Rightarrow>
          (let tokens = word_tokenize e text';
               tokens = english_tokens e tokens
           in Inr (tokens_lem e tokens)))"

subsection \<open>Instances of the NLTK parameters\<close>

text \<open>
  \<^verbatim>\<open>tokenize\<close> passes on a text that holds only letters, digits and blanks. On such a
  text the word tokenizer cuts at the blanks (NLTK also cuts a few contractions written
  as one word, such as \<^verbatim>\<open>cannot\<close>; the texts used below hold none). \<open>split_blanks\<close>
  cuts at the blanks; it stands for \<^verbatim>\<open>word_tokenize\<close> in the instances below.
\<close>

fun split_acc :: "string \<Rightarrow> string \<Rightarrow> string list" where
  "split_acc acc [] = (if acc = [] then [] else [acc])"
| "split_acc acc (c # cs) =
     (if is_space c then (if acc = [] then split_acc [] cs else acc # split_acc [] cs)
      else split_acc (acc @ [c]) cs)"

definition split_blanks :: "string \<Rightarrow> string list" where
  "split_blanks s = split_acc [] s"

text \<open>
  The vocabulary and the stop words of the example scenario of the specification, with
  a lemmatizer that leaves every word as it is.
\<close>

definition scenario :: nltk where
  "scenario =
     \<lparr> word_tokenize = split_blanks,
       lemmatize = (\<lambda>w. w),
       stopwords_english = [''this'', ''is'', ''so''],
       words_words = [''service'', ''bad''] \<rparr>"

text \<open>
  An excerpt of the NLTK data: some entries of the word list (which holds the single
  letters and capitalised entries too), some entries of the English stop-word list, and
  the noun lemmas WordNet gives for two of the words (the shortest form it knows:
  \<^verbatim>\<open>us\<close> becomes \<^verbatim>\<open>u\<close>, \<^verbatim>\<open>os\<close> becomes \<^verbatim>\<open>o\<close>).
\<close>

definition wordnet_excerpt :: "string \<Rightarrow> string" where
  "wordnet_excerpt w =
     (if w = ''us'' then ''u''
      else if w = ''os'' then ''o''
      else w)"

definition excerpt :: nltk where
  "excerpt =
     \<lparr> word_tokenize = split_blanks,
       lemmatize = wordnet_excerpt,
       stopwords_english =
         [''i'', ''me'', ''my'', ''we'', ''our'', ''this'', ''that'', ''is'', ''are'',
          ''was'', ''the'', ''and'', ''so'', ''can'', ''o'', ''s'', ''t''],
       words_words =
         [''a'', ''A'', ''bad'', ''is'', ''o'', ''os'', ''service'', ''slow'', ''so'',
          ''this'', ''u'', ''us''] \<rparr>"

section \<open>The Topic Extractor: the pipeline and \<^verbatim>\<open>display_topics\<close>\<close>

text \<open>
  The fitted pipeline object, as far as the notebook reads it: the topic-term weights
  \<^verbatim>\<open>named_steps.get('latentdirichletallocation').components_\<close>, one row per topic, and
  the terms \<^verbatim>\<open>named_steps.get('tfidfvectorizer').get_feature_names()\<close>. The weights are
  only compared with each other, so any linearly ordered type stands for them.
\<close>

record 'w pipeline =
  components :: "'w list list"
  feature_names :: "string list"

text \<open>
  scikit-learn is not part of the repository either. Its two fitting steps are parameters:
  \<^verbatim>\<open>TfidfVectorizer(tokenizer=...)\<close> fitted on the documents gives the weight matrix and
  the terms, and \<^verbatim>\<open>LatentDirichletAllocation(n_components=..., random_state=...)\<close>
  fitted on the matrix gives the topic-term weights. Either may raise. \<open>n_columns\<close> is
  the number of columns of the weight matrix (\<^verbatim>\<open>X.shape[1]\<close>).
\<close>

record ('m, 'w) sklearn =
  fit_tfidf :: "(pyobj \<Rightarrow> error + string list) \<Rightarrow> string list \<Rightarrow> error + 'm \<times> string list"
  n_columns :: "'m \<Rightarrow> nat"
  fit_lda :: "int \<Rightarrow> int \<Rightarrow> 'm \<Rightarrow> error + 'w list list"

text \<open>
  So is numpy: \<^verbatim>\<open>np.argsort\<close> returns the indices that put the weights in ascending
  order. Its default sort is not stable, so the order it gives to equal weights is not
  fixed; \<open>sorting_permutation\<close> is what every result of it satisfies.
\<close>

record 'w numpy =
  argsort :: "'w list \<Rightarrow> nat list"

definition sorting_permutation :: "'w::linorder list \<Rightarrow> nat list \<Rightarrow> bool" where
  "sorting_permutation c idx =
     (distinct idx \<and> set idx = {..<length c} \<and> sorted (map ((!) c) idx))"

definition seed :: int where
  "seed = 42"

definition fit_transform ::
  "('m, 'w) sklearn \<Rightarrow> nltk \<Rightarrow> int \<Rightarrow> string list \<Rightarrow> error + 'w pipeline" where
  \<comment> \<open>\<^verbatim>\<open>model = make_pipeline(TfidfVectorizer(tokenizer=tokenize),
        LatentDirichletAllocation(n_components=number_of_topics, n_jobs=-1, random_state=seed))\<close>
      and \<^verbatim>\<open>model.fit_transform(comments.comment)\<close>\<close>
  "fit_transform sk e number_of_topics comments =
     (case fit_tfidf sk (tokenize e) comments of
        Inl err \<Rightarrow> Inl err
      | Inr (X, names) \<Rightarrow>
          (case fit_lda sk number_of_topics seed X of
             Inl err \<Rightarrow> Inl err
           | Inr comps \<Rightarrow> Inr \<lparr> components = comps, feature_names = names \<rparr>))"

definition slice_to :: "int \<Rightarrow> 'a list \<Rightarrow> 'a list" where
  \<comment> \<open>the slice \<^verbatim>\<open>xs[:n]\<close>; a negative \<^verbatim>\<open>n\<close> counts from the end\<close>
  "slice_to n xs = (if 0 \<le> n then take (nat n) xs else take (length xs - nat (- n)) xs)"

definition word_idx :: "'w numpy \<Rightarrow> 'w list \<Rightarrow> int \<Rightarrow> nat list" where
  \<comment> \<open>\<^verbatim>\<open>np.argsort(component)[::-1][:number_of_top_words]\<close>\<close>
  "word_idx np component number_of_top_words =
     slice_to number_of_top_words (rev (argsort np component))"

definition getitem :: "'a list \<Rightarrow> nat \<Rightarrow> error + 'a" where
  \<comment> \<open>\<^verbatim>\<open>vocab[i]\<close> for an index that is not negative\<close>
  "getitem xs i = (if i < length xs then Inr (xs ! i) else Inl IndexError)"

fun collect :: "(error + 'a) list \<Rightarrow> error + 'a list" where
  \<comment> \<open>a comprehension or loop whose steps may raise: the first error ends it\<close>
  "collect [] = Inr []"
| "collect (r # rs) =
     (case r of
        Inl err \<Rightarrow> Inl err
      | Inr x \<Rightarrow> (case collect rs of Inl err \<Rightarrow> Inl err | Inr xs \<Rightarrow> Inr (x # xs)))"

definition topic_words ::
  "'w numpy \<Rightarrow> 'w pipeline \<Rightarrow> int \<Rightarrow> string list \<Rightarrow> error + (nat \<times> string list) list" where
  \<comment> \<open>the first loop of \<^verbatim>\<open>display_topics\<close>; the dictionary \<^verbatim>\<open>topic_words\<close> keeps the
      order in which the keys were added\<close>
  "topic_words np model number_of_top_words vocab =
     collect
       (map (\<lambda>(topic, component).
               case collect (map (getitem vocab) (word_idx np component number_of_top_words)) of
                 Inl err \<Rightarrow> Inl err
               | Inr ws \<Rightarrow> Inr (topic, ws))
            (enumerate 0 (components model)))"

fun str_nat :: "nat \<Rightarrow> string" where
  \<comment> \<open>the decimal text of a number, as an f-string prints it\<close>
  "str_nat n =
     (if n < 10 then [char_of (48 + n)]
      else str_nat (n div 10) @ [char_of (48 + n mod 10)])"

declare str_nat.simps [simp del]

definition printed :: "(nat \<times> string list) list \<Rightarrow> string list" where
  \<comment> \<open>the second loop of \<^verbatim>\<open>display_topics\<close>: the lines it prints\<close>
  "printed tw =
     concat (map (\<lambda>(topic, ws).
                    [''Topic: '' @ str_nat (topic + 1), ''Words:  '' @ join '', '' ws]) tw)"

definition display_topics ::
  "'w numpy \<Rightarrow> 'w pipeline \<Rightarrow> int \<Rightarrow> 'p \<Rightarrow> string list \<Rightarrow> error + string list" where
  \<comment> \<open>The first argument is numpy and the second the global variable \<^verbatim>\<open>model\<close>, which
      the body reads; the other three are the parameters of the Python function, in its
      order.\<close>
  "display_topics np model number_of_top_words model_pipeline vocab =
     (case topic_words np model number_of_top_words vocab of
        Inl err \<Rightarrow> Inl err
      | Inr tw \<Rightarrow> Inr (printed tw))"

definition topic_extractor ::
  "('m, 'w) sklearn \<Rightarrow> 'w numpy \<Rightarrow> nltk \<Rightarrow> int \<Rightarrow> int \<Rightarrow> string list \<Rightarrow> error + string list" where
  \<comment> \<open>the cells of the notebook from \<^verbatim>\<open>make_pipeline\<close> to the call
      \<^verbatim>\<open>display_topics(number_of_top_words=..., model_pipeline=model, vocab=vocabulary)\<close>\<close>
  "topic_extractor sk np e number_of_topics number_of_top_words comments =
     (case fit_transform sk e number_of_topics comments of
        Inl err \<Rightarrow> Inl err
      | Inr model \<Rightarrow>
          (let vocabulary = feature_names model
           in display_topics np model number_of_top_words model vocabulary))"

subsection \<open>Instances of the numpy and scikit-learn parameters\<close>

text \<open>
  One sort that \<^verbatim>\<open>np.argsort\<close> may be: the stable one, where of two equal weights the
  one with the smaller index comes first.
\<close>

definition stable_argsort :: "'w::linorder list \<Rightarrow> nat list" where
  "stable_argsort c = map snd (sort_key fst (zip c [0..<length c]))"

definition stable_numpy :: "'w::linorder numpy" where
  "stable_numpy = \<lparr> argsort = stable_argsort \<rparr>"

text \<open>
  A stub of the two fitting steps, to run the pipeline on concrete documents. The
  vectorizer stub calls the tokenizer on every document, takes the distinct tokens as
  terms and counts them per document; it raises when no term is left. The factorizer
  stub raises on a topic count below 1 and otherwise gives each topic one weight per
  column, computed from the column's total, the topic's number and the seed.
\<close>

definition stub_tfidf ::
  "(pyobj \<Rightarrow> error + string list) \<Rightarrow> string list \<Rightarrow> error + (nat \<times> nat list list) \<times> string list" where
  "stub_tfidf tokenizer docs =
     (case collect (map (\<lambda>d. tokenizer (PyStr d)) docs) of
        Inl err \<Rightarrow> Inl err
      | Inr toks \<Rightarrow>
          (let names = remdups (concat toks)
           in if names = [] then Inl ValueError
              else Inr ((length names, map (\<lambda>ts. map (count_list ts) names) toks), names)))"

definition stub_weight :: "nat \<times> nat list list \<Rightarrow> int \<Rightarrow> nat \<Rightarrow> nat \<Rightarrow> int" where
  "stub_weight X random_state i j =
     11 * int (sum_list (map (\<lambda>row. row ! j) (snd X)))
     + (7 * (int i + 1) * (int j + 1) + random_state) mod 11"

definition stub_lda :: "int \<Rightarrow> int \<Rightarrow> nat \<times> nat list list \<Rightarrow> error + int list list" where
  "stub_lda n_components random_state X =
     (if n_components < 1 then Inl ValueError
      else Inr (map (\<lambda>i. map (stub_weight X random_state i) [0..<fst X])
                  [0..<nat n_components]))"

definition stub_sklearn :: "(nat \<times> nat list list, int) sklearn" where
  "stub_sklearn = \<lparr> fit_tfidf = stub_tfidf, n_columns = fst, fit_lda = stub_lda \<rparr>"

section \<open>Facts about the string operations and the stages of \<^verbatim>\<open>tokenize\<close>\<close>

lemma lower_char_not_upper: "\<not> is_upper (lower_char c)"
proof (cases "is_upper c")
  case False
  then show ?thesis by (simp add: lower_char_def)
next
  case True
  then have "(of_char c :: nat) + 32 < 256"
    by (auto simp: is_upper_def Let_def)
  then have "(of_char (char_of ((of_char c :: nat) + 32)) :: nat) = of_char c + 32"
    by simp
  with True show ?thesis
    by (auto simp: lower_char_def is_upper_def Let_def)
qed

lemma lower_no_upper: "c \<in> set (lower s) \<Longrightarrow> \<not> is_upper c"
  by (auto simp: lower_def lower_char_not_upper)

lemma lower_fixed: "(\<forall>c \<in> set s. \<not> is_upper c) \<Longrightarrow> lower s = s"
  by (induction s) (auto simp: lower_def lower_char_def)

lemma lower_idem: "lower (lower s) = lower s"
  by (rule lower_fixed) (auto dest: lower_no_upper)

lemma vocabulary_lower: "w \<in> set (ENGLISH_VOCABULARY e) \<Longrightarrow> lower w = w"
  by (auto simp: ENGLISH_VOCABULARY_def lower_idem)

lemma vocabulary_no_upper:
  "w \<in> set (ENGLISH_VOCABULARY e) \<Longrightarrow> c \<in> set w \<Longrightarrow> \<not> is_upper c"
  by (auto simp: ENGLISH_VOCABULARY_def dest: lower_no_upper)

lemma english_tokens_iff:
  "w \<in> set (english_tokens e tokens) \<longleftrightarrow>
     w \<in> set tokens \<and> w \<in> set (ENGLISH_VOCABULARY e) \<and> 1 < length w"
  by (auto simp: english_tokens_def)

lemma alnum_not_space: "is_alnum c \<Longrightarrow> \<not> is_space c"
  by (auto simp: is_alnum_def is_space_def Let_def)

lemma strip_fixed: "(\<forall>c \<in> set t. \<not> is_space c) \<Longrightarrow> strip t = t"
proof -
  assume h: "\<forall>c \<in> set t. \<not> is_space c"
  have a: "dropWhile is_space t = t" using h by (cases t) auto
  have b: "dropWhile is_space (rev t) = rev t" using h by (cases "rev t") (auto dest: arg_cong[where f=set])
  show ?thesis by (simp add: strip_def a b)
qed

lemma clean_chars: "c \<in> set (clean s) \<Longrightarrow> is_alnum c \<or> c = CHR '' ''"
  by (auto simp: clean_def)

lemma tokenize_str:
  "tokenize e (PyStr s) = Inr (tokens_lem e (english_tokens e (word_tokenize e (clean s))))"
  by (simp add: tokenize_def re_sub_def)

lemma uppercase_token_dropped:
  "c \<in> set w \<Longrightarrow> is_upper c \<Longrightarrow> w \<notin> set (english_tokens e tokens)"
  by (auto simp: english_tokens_iff dest: vocabulary_no_upper)

lemma This_not_in_vocabulary: "''This'' \<notin> set (ENGLISH_VOCABULARY e)"
  using vocabulary_no_upper [of "''This''" e "CHR ''T''"] by (auto simp: is_upper_def)

lemma SO_not_in_vocabulary: "''SO'' \<notin> set (ENGLISH_VOCABULARY e)"
  using vocabulary_no_upper [of "''SO''" e "CHR ''S''"] by (auto simp: is_upper_def)

section \<open>Facts about the tokenizer instance\<close>





section \<open>Facts about \<^verbatim>\<open>np.argsort\<close>, the top words and the printed report\<close>

lemma zip_index_pair:
  "p \<in> set (zip c [0..<length c]) \<Longrightarrow> snd p < length c \<and> fst p = c ! snd p"
  by (cases p) (auto simp: in_set_zip)

lemma set_stable_argsort: "set (stable_argsort c) = {..<length c}"
proof -
  have "map snd (zip c [0..<length c]) = [0..<length c]"
    by (rule map_snd_zip) simp
  then have "snd ` set (zip c [0..<length c]) = set [0..<length c]"
    by (metis set_map)
  then show ?thesis
    by (simp add: stable_argsort_def atLeast0LessThan)
qed

lemma distinct_stable_argsort: "distinct (stable_argsort c)"
proof -
  let ?zs = "zip c [0..<length c]"
  have "distinct ?zs"
    by (simp add: distinct_zipI2)
  then have d: "distinct (sort_key fst ?zs)"
    by simp
  have "inj_on snd (set ?zs)"
    by (rule inj_onI) (metis prod.expand zip_index_pair)
  then have "inj_on snd (set (sort_key fst ?zs))"
    by simp
  with d show ?thesis
    by (simp add: stable_argsort_def distinct_map)
qed

lemma weights_stable_argsort: "sorted (map ((!) c) (stable_argsort c))"
proof -
  let ?zs = "zip c [0..<length c]"
  have "map ((!) c) (stable_argsort c) = map fst (sort_key fst ?zs)"
    unfolding stable_argsort_def map_map
    by (rule map_cong [OF refl]) (simp add: zip_index_pair)
  then show ?thesis
    by (simp add: sorted_sort_key)
qed

lemma stable_numpy_sorts: "sorting_permutation c (argsort stable_numpy c)"
  by (simp add: sorting_permutation_def stable_numpy_def set_stable_argsort
      distinct_stable_argsort weights_stable_argsort)

lemma sorting_permutation_length: "sorting_permutation c idx \<Longrightarrow> length idx = length c"
  unfolding sorting_permutation_def
  by (metis card_lessThan distinct_card)

lemma word_idx_take:
  "0 \<le> n \<Longrightarrow> word_idx np c n = take (nat n) (rev (argsort np c))"
  by (simp add: word_idx_def slice_to_def)

lemma set_word_idx: "set (word_idx np c n) \<subseteq> set (argsort np c)"
  by (auto simp: word_idx_def slice_to_def dest: in_set_takeD)

lemma word_idx_props:
  fixes c :: "'w::linorder list"
  assumes sp: "sorting_permutation c (argsort np c)"
    and n: "0 \<le> n" "nat n \<le> length c"
  shows "length (word_idx np c n) = nat n"
    and "distinct (word_idx np c n)"
    and "sorted_wrt (\<ge>) (map ((!) c) (word_idx np c n))"
    and "\<forall>j < length c. j \<notin> set (word_idx np c n) \<longrightarrow>
           (\<forall>i \<in> set (word_idx np c n). c ! j \<le> c ! i)"
proof -
  let ?R = "rev (argsort np c)"
  from sp have d: "distinct (argsort np c)" and st: "set (argsort np c) = {..<length c}"
    and so: "sorted (map ((!) c) (argsort np c))"
    by (simp_all add: sorting_permutation_def)
  have w: "word_idx np c n = take (nat n) ?R"
    using n(1) by (rule word_idx_take)
  show "length (word_idx np c n) = nat n"
    using n(2) sorting_permutation_length [OF sp] by (simp add: w)
  show "distinct (word_idx np c n)"
    by (simp add: w d)
  have "sorted_wrt (\<lambda>i j. c ! j \<le> c ! i) ?R"
    using so by (simp add: sorted_wrt_rev sorted_wrt_map)
  then have s: "sorted_wrt (\<lambda>i j. c ! j \<le> c ! i) (take (nat n) ?R @ drop (nat n) ?R)"
    by simp
  then have "sorted_wrt (\<lambda>i j. c ! j \<le> c ! i) (take (nat n) ?R)"
    unfolding sorted_wrt_append by blast
  then show "sorted_wrt (\<ge>) (map ((!) c) (word_idx np c n))"
    by (simp add: w sorted_wrt_map)
  show "\<forall>j < length c. j \<notin> set (word_idx np c n) \<longrightarrow>
          (\<forall>i \<in> set (word_idx np c n). c ! j \<le> c ! i)"
  proof (intro allI impI ballI)
    fix j i
    assume j: "j < length c" "j \<notin> set (word_idx np c n)" and i: "i \<in> set (word_idx np c n)"
    have "j \<in> set (take (nat n) ?R @ drop (nat n) ?R)"
      using j(1) by (simp add: st)
    then have "j \<in> set (drop (nat n) ?R)"
      using j(2) unfolding w set_append by blast
    with s i show "c ! j \<le> c ! i"
      unfolding sorted_wrt_append w by blast
  qed
qed

lemma collect_all_ok: "collect (map (\<lambda>x. Inr (f x)) xs) = Inr (map f xs)"
  by (induction xs) simp_all

lemma collect_getitem:
  "set is \<subseteq> {..<length vocab} \<Longrightarrow> collect (map (getitem vocab) is) = Inr (map ((!) vocab) is)"
  by (induction "is") (simp_all add: getitem_def)

lemma topic_words_ok:
  assumes idx: "\<forall>c \<in> set (components model). set (argsort np c) \<subseteq> {..<length vocab}"
  shows "topic_words np model n vocab =
           Inr (map (\<lambda>(topic, c). (topic, map ((!) vocab) (word_idx np c n)))
                  (enumerate 0 (components model)))"
proof -
  have sub: "set (word_idx np c n) \<subseteq> {..<length vocab}" if "c \<in> set (components model)" for c
    using idx that set_word_idx [of np c n] by blast
  have "map (\<lambda>(topic, component).
               case collect (map (getitem vocab) (word_idx np component n)) of
                 Inl err \<Rightarrow> Inl err
               | Inr ws \<Rightarrow> Inr (topic, ws))
            (enumerate 0 (components model))
        = map (\<lambda>p. Inr (case p of (topic, c) \<Rightarrow> (topic, map ((!) vocab) (word_idx np c n))))
            (enumerate 0 (components model))"
  proof (rule map_cong [OF refl])
    fix p assume "p \<in> set (enumerate 0 (components model))"
    then have "fst p < length (components model)" "components model ! fst p = snd p"
      by (simp_all add: in_set_enumerate_eq)
    then have "snd p \<in> set (components model)"
      using nth_mem [of "fst p" "components model"] by simp
    from sub [OF this] show "(case p of (topic, component) \<Rightarrow>
               case collect (map (getitem vocab) (word_idx np component n)) of
                 Inl err \<Rightarrow> Inl err
               | Inr ws \<Rightarrow> Inr (topic, ws))
            = Inr (case p of (topic, c) \<Rightarrow> (topic, map ((!) vocab) (word_idx np c n)))"
      by (cases p) (simp add: collect_getitem)
  qed
  then show ?thesis
    unfolding topic_words_def by (simp only: collect_all_ok)
qed

lemma length_printed: "length (printed tw) = 2 * length tw"
  by (induction tw) (auto simp: printed_def)

lemma printed_Cons:
  "printed ((t, ws) # tw) =
     (''Topic: '' @ str_nat (t + 1)) # (''Words:  '' @ join '', '' ws) # printed tw"
  by (simp add: printed_def)

lemma printed_nth:
  "i < length tw \<Longrightarrow>
     printed tw ! (2 * i) = ''Topic: '' @ str_nat (fst (tw ! i) + 1) \<and>
     printed tw ! (2 * i + 1) = ''Words:  '' @ join '', '' (snd (tw ! i))"
proof (induction tw arbitrary: i)
  case Nil
  then show ?case by simp
next
  case (Cons p tw)
  obtain t ws where p: "p = (t, ws)" by (cases p)
  show ?case
  proof (cases i)
    case 0
    then show ?thesis by (simp add: p printed_Cons)
  next
    case (Suc k)
    with Cons.prems have "k < length tw" by simp
    from Cons.IH [OF this] show ?thesis
      by (simp add: p printed_Cons Suc)
  qed
qed

lemma fit_transform_Inr:
  assumes "fit_transform sk e k comments = Inr model"
  obtains X where "fit_tfidf sk (tokenize e) comments = Inr (X, feature_names model)"
    and "fit_lda sk k seed X = Inr (components model)"
  using assms unfolding fit_transform_def
  by (auto split: sum.splits prod.splits)

lemma stub_tfidf_columns:
  "fit_tfidf stub_sklearn tokenizer docs = Inr (X, names) \<Longrightarrow>
     n_columns stub_sklearn X = length names"
  by (auto simp: stub_sklearn_def stub_tfidf_def Let_def split: sum.splits if_splits)

lemma stub_lda_shape:
  "fit_lda stub_sklearn n_components random_state X = Inr comps \<Longrightarrow>
     int (length comps) = n_components \<and> (\<forall>c \<in> set comps. length c = n_columns stub_sklearn X)"
  by (auto simp: stub_sklearn_def stub_lda_def split: if_splits)

lemmas normalizer_defs =
  tokenize_def re_sub_def clean_def is_alnum_def split_blanks_def is_space_def
  english_tokens_def tokens_lem_def ENGLISH_VOCABULARY_def STOP_WORDS_ENG_def lower_def
  lower_char_def is_upper_def strip_def excerpt_def scenario_def wordnet_excerpt_def

section \<open>Claims about the Text Normalizer\<close>

text \<open>
  C1. The claim: a token is retained after tokenization if and only if it appears
  case-insensitively in the reference vocabulary and is longer than one character, so a
  word whose lower-cased form is in the vocabulary is retained whatever its letter case
  in the input. The code compares the token as it stands with the lower-cased
  vocabulary and lower-cases the token only afterwards: on the input \<^verbatim>\<open>Service\<close>, with
  \<^verbatim>\<open>service\<close> in the vocabulary, nothing is retained, while the input \<^verbatim>\<open>service\<close>
  gives the token \<^verbatim>\<open>service\<close>.
\<close>

theorem tokenize_drops_capitalised_word:
  "tokenize excerpt (PyStr ''Service'') = Inr []
   \<and> lower ''Service'' \<in> set (ENGLISH_VOCABULARY excerpt)
   \<and> 1 < length ''Service''
   \<and> tokenize excerpt (PyStr ''service'') = Inr [''service'']"
  by (simp add: normalizer_defs char_of_eq_iff)

text \<open>
  C2. The claim: every emitted token is longer than one character, lower-case, free of
  non-alphanumeric characters, in the reference vocabulary and not a stop word, the
  stop-word exclusion being applied to the emitted lemma. In the code the five tests
  are made on the token before it is lemmatized. With the lemma \<^verbatim>\<open>o\<close> of \<^verbatim>\<open>os\<close>, the
  input \<^verbatim>\<open>os\<close> emits the token \<^verbatim>\<open>o\<close>, which has one character and is a stop word.
\<close>

theorem emitted_lemma_short_stop_word:
  "tokenize excerpt (PyStr ''os'') = Inr [''o'']
   \<and> length ''o'' = 1
   \<and> ''o'' \<in> set (STOP_WORDS_ENG excerpt)"
  by (simp add: normalizer_defs char_of_eq_iff)

text \<open>
  C2 as amended: for every input string, \<^verbatim>\<open>tokenize\<close> returns, and every token it emits
  is the lemma of a token that is longer than one character, lower-case, made of ASCII
  letters and digits only, in the reference vocabulary and not in the stop-word set
  (the extended list included). The hypothesis is on the tokenizer, a parameter here:
  the tokens it returns for the cleaned text are made of characters of that text other
  than the blank.
\<close>

theorem emitted_tokens_are_lemmas:
  assumes tok: "\<forall>t \<in> set (word_tokenize e (clean s)).
                  \<forall>c \<in> set t. c \<in> set (clean s) \<and> c \<noteq> CHR '' ''"
  shows "\<exists>out. tokenize e (PyStr s) = Inr out \<and>
           (\<forall>x \<in> set out. \<exists>t. x = lemmatize e t
               \<and> 1 < length t \<and> lower t = t \<and> (\<forall>c \<in> set t. is_alnum c)
               \<and> t \<in> set (ENGLISH_VOCABULARY e) \<and> t \<notin> set (STOP_WORDS_ENG e))"
proof -
  let ?out = "tokens_lem e (english_tokens e (word_tokenize e (clean s)))"
  have "\<exists>t. x = lemmatize e t
               \<and> 1 < length t \<and> lower t = t \<and> (\<forall>c \<in> set t. is_alnum c)
               \<and> t \<in> set (ENGLISH_VOCABULARY e) \<and> t \<notin> set (STOP_WORDS_ENG e)"
    if "x \<in> set ?out" for x
  proof -
    from that obtain t where x: "x = lemmatize e (lower (strip t))"
      and ns: "t \<notin> set (STOP_WORDS_ENG e)"
      and en: "t \<in> set (english_tokens e (word_tokenize e (clean s)))"
      by (auto simp: tokens_lem_def)
    from en have tt: "t \<in> set (word_tokenize e (clean s))"
      and voc: "t \<in> set (ENGLISH_VOCABULARY e)" and len: "1 < length t"
      by (simp_all add: english_tokens_iff)
    have al: "\<forall>c \<in> set t. is_alnum c"
    proof
      fix c assume c: "c \<in> set t"
      with tok tt have "c \<in> set (clean s)" and "c \<noteq> CHR '' ''"
        by simp_all
      then show "is_alnum c"
        using clean_chars [of c s] by simp
    qed
    have "strip t = t"
      using al by (intro strip_fixed) (auto dest: alnum_not_space)
    moreover have low: "lower t = t"
      using voc by (rule vocabulary_lower)
    ultimately have "x = lemmatize e t"
      using x by simp
    with len low al voc ns show ?thesis by blast
  qed
  then show ?thesis by (auto simp: tokenize_str)
qed

theorem emitted_tokens_are_lemmas_witness:
  "\<exists>out. tokenize excerpt (PyStr ''Bad service, this is slow!'') = Inr out \<and>
      out = [''service'', ''slow''] \<and>
      (\<forall>x \<in> set out. \<exists>t. x = lemmatize excerpt t
          \<and> 1 < length t \<and> lower t = t \<and> (\<forall>c \<in> set t. is_alnum c)
          \<and> t \<in> set (ENGLISH_VOCABULARY excerpt) \<and> t \<notin> set (STOP_WORDS_ENG excerpt))"
proof -
  have h: "\<forall>t \<in> set (word_tokenize excerpt (clean ''Bad service, this is slow!'')).
             \<forall>c \<in> set t. c \<in> set (clean ''Bad service, this is slow!'') \<and> c \<noteq> CHR '' ''"
    by (simp add: normalizer_defs)
  have v: "tokenize excerpt (PyStr ''Bad service, this is slow!'') = Inr [''service'', ''slow'']"
    by (simp add: normalizer_defs)
  from emitted_tokens_are_lemmas [OF h] v show ?thesis by simp
qed

text \<open>
  C4. The claim: given an empty string or a null input, the normalizer returns an empty
  token sequence instead of raising. On \<^verbatim>\<open>None\<close> the first statement, \<^verbatim>\<open>re.sub\<close>,
  raises \<^verbatim>\<open>TypeError\<close>; the docstring gives the parameter the type \<^verbatim>\<open>str\<close>, and the
  notebook removes the missing comments with \<^verbatim>\<open>dropna()\<close> before the call.
\<close>

theorem tokenize_none_raises:
  "tokenize excerpt PyNone = Inl TypeError"
  by (simp add: tokenize_def re_sub_def)

text \<open>
  C4 as amended: given the empty string, the normalizer returns the empty token
  sequence (the tokenizer, a parameter here, finding no token in an empty text); a null
  input is outside the function's domain and raises \<^verbatim>\<open>TypeError\<close>.
\<close>

theorem tokenize_empty_string:
  "word_tokenize e [] = [] \<Longrightarrow>
     tokenize e (PyStr []) = Inr [] \<and> tokenize e PyNone = Inl TypeError"
  by (simp add: tokenize_def re_sub_def clean_def english_tokens_def tokens_lem_def)

theorem tokenize_empty_string_witness:
  "word_tokenize excerpt [] = [] \<and> tokenize excerpt (PyStr []) = Inr []
     \<and> tokenize excerpt PyNone = Inl TypeError"
proof -
  have h: "word_tokenize excerpt [] = []"
    by (simp add: normalizer_defs)
  from tokenize_empty_string [OF h] h show ?thesis by simp
qed

text \<open>
  C5. With a reference vocabulary that contains \<^verbatim>\<open>service\<close> and \<^verbatim>\<open>bad\<close> and a stop-word
  set that contains \<^verbatim>\<open>this\<close>, \<^verbatim>\<open>is\<close> and \<^verbatim>\<open>so\<close>, the normalizer applied to
  \<^verbatim>\<open>This service is SO bad!!! 123\<close> returns exactly \<^verbatim>\<open>service\<close>, \<^verbatim>\<open>bad\<close>. The sets may
  hold more than the words named, as long as \<^verbatim>\<open>123\<close> is no vocabulary word and
  \<^verbatim>\<open>service\<close> and \<^verbatim>\<open>bad\<close> are no stop words; the tokenizer cuts the cleaned text at
  its blanks and the lemmatizer leaves the two words as they are.
\<close>

theorem scenario_tokens:
  assumes tok: "word_tokenize e (clean ''This service is SO bad!!! 123'') =
                  [''This'', ''service'', ''is'', ''SO'', ''bad'', ''123'']"
    and lem: "lemmatize e ''service'' = ''service''" "lemmatize e ''bad'' = ''bad''"
    and voc: "''service'' \<in> set (ENGLISH_VOCABULARY e)" "''bad'' \<in> set (ENGLISH_VOCABULARY e)"
             "''123'' \<notin> set (ENGLISH_VOCABULARY e)"
    and stop: "''this'' \<in> set (STOP_WORDS_ENG e)" "''is'' \<in> set (STOP_WORDS_ENG e)"
              "''so'' \<in> set (STOP_WORDS_ENG e)"
              "''service'' \<notin> set (STOP_WORDS_ENG e)" "''bad'' \<notin> set (STOP_WORDS_ENG e)"
  shows "tokenize e (PyStr ''This service is SO bad!!! 123'') = Inr [''service'', ''bad'']"
proof -
  let ?toks = "[''This'', ''service'', ''is'', ''SO'', ''bad'', ''123'']"
  have st: "lower (strip ''service'') = ''service''" "lower (strip ''bad'') = ''bad''"
    by (simp_all add: lower_def lower_char_def is_upper_def strip_def is_space_def)
  have "english_tokens e ?toks = [''service'', ''is'', ''bad''] \<or>
        english_tokens e ?toks = [''service'', ''bad'']"
    using voc This_not_in_vocabulary [of e] SO_not_in_vocabulary [of e]
    by (simp add: english_tokens_def)
  then have "tokens_lem e (english_tokens e ?toks) = [''service'', ''bad'']"
    using stop lem st by (auto simp: tokens_lem_def)
  then show ?thesis
    by (simp only: tokenize_str tok)
qed

theorem scenario_tokens_witness:
  "tokenize scenario (PyStr ''This service is SO bad!!! 123'') = Inr [''service'', ''bad'']
   \<and> set (ENGLISH_VOCABULARY scenario) = {''service'', ''bad''}
   \<and> set (stopwords_english scenario) = {''this'', ''is'', ''so''}"
proof -
  have tok: "word_tokenize scenario (clean ''This service is SO bad!!! 123'') =
                  [''This'', ''service'', ''is'', ''SO'', ''bad'', ''123'']"
    by (simp add: normalizer_defs)
  have lem: "lemmatize scenario ''service'' = ''service''" "lemmatize scenario ''bad'' = ''bad''"
    by (simp_all add: scenario_def)
  have voc: "''service'' \<in> set (ENGLISH_VOCABULARY scenario)"
      "''bad'' \<in> set (ENGLISH_VOCABULARY scenario)"
      "''123'' \<notin> set (ENGLISH_VOCABULARY scenario)"
    by (simp_all add: normalizer_defs)
  have stop: "''this'' \<in> set (STOP_WORDS_ENG scenario)" "''is'' \<in> set (STOP_WORDS_ENG scenario)"
      "''so'' \<in> set (STOP_WORDS_ENG scenario)"
      "''service'' \<notin> set (STOP_WORDS_ENG scenario)" "''bad'' \<notin> set (STOP_WORDS_ENG scenario)"
    by (simp_all add: normalizer_defs)
  have sets: "set (ENGLISH_VOCABULARY scenario) = {''service'', ''bad''}"
    "set (stopwords_english scenario) = {''this'', ''is'', ''so''}"
    by (simp_all add: normalizer_defs)
  from scenario_tokens [OF tok lem voc stop] sets show ?thesis by simp
qed




section \<open>Claims about the Topic Extractor\<close>

text \<open>
  C6. Running the Topic Extractor with \<open>number_of_topics = k\<close> on documents for which
  the fit succeeds, with \<open>number_of_top_words\<close> between 0 and the number of terms,
  emits exactly \<open>k\<close> topic entries, printed with the indices 1 to \<open>k\<close>, each with exactly
  \<open>number_of_top_words\<close> terms, which are the terms of distinct columns in descending
  order of the topic's weight, no other term of the topic weighing more than any of
  them. The hypotheses on the libraries are their contracts: the vectorizer returns one
  term per column of its matrix, the factorizer returns \<^verbatim>\<open>n_components\<close> rows of one
  weight per column, and \<^verbatim>\<open>np.argsort\<close> returns a permutation of the indices that
  sorts the weights, whatever order it gives to equal weights.
\<close>

theorem report_has_k_topics_of_n_words:
  fixes sk :: "('m, 'w::linorder) sklearn"
  assumes tfidf: "\<forall>tokenizer docs X names.
                    fit_tfidf sk tokenizer docs = Inr (X, names) \<longrightarrow>
                      n_columns sk X = length names"
    and lda: "\<forall>n_components random_state X comps.
                fit_lda sk n_components random_state X = Inr comps \<longrightarrow>
                  int (length comps) = n_components
                  \<and> (\<forall>c \<in> set comps. length c = n_columns sk X)"
    and sorts: "\<forall>c. sorting_permutation c (argsort np c)"
    and fit: "fit_transform sk e k comments = Inr model"
    and n: "0 \<le> n" "nat n \<le> length (feature_names model)"
  shows "\<exists>tw. topic_words np model n (feature_names model) = Inr tw
          \<and> topic_extractor sk np e k n comments = Inr (printed tw)
          \<and> int (length tw) = k
          \<and> length (printed tw) = 2 * length tw
          \<and> (\<forall>i < length tw.
                let c = components model ! i; idx = word_idx np c n
                in tw ! i = (i, map ((!) (feature_names model)) idx)
                 \<and> printed tw ! (2 * i) = ''Topic: '' @ str_nat (i + 1)
                 \<and> printed tw ! (2 * i + 1) = ''Words:  '' @ join '', '' (snd (tw ! i))
                 \<and> length (snd (tw ! i)) = nat n
                 \<and> distinct idx
                 \<and> sorted_wrt (\<ge>) (map ((!) c) idx)
                 \<and> (\<forall>j < length c. j \<notin> set idx \<longrightarrow> (\<forall>i' \<in> set idx. c ! j \<le> c ! i')))"
proof -
  let ?vocab = "feature_names model"
  let ?tw = "map (\<lambda>(topic, c). (topic, map ((!) ?vocab) (word_idx np c n)))
               (enumerate 0 (components model))"
  from fit obtain X where vec: "fit_tfidf sk (tokenize e) comments = Inr (X, ?vocab)"
    and fac: "fit_lda sk k seed X = Inr (components model)"
    by (rule fit_transform_Inr)
  from tfidf vec have width: "n_columns sk X = length ?vocab"
    by blast
  from lda fac have rows: "int (length (components model)) = k"
    and "\<forall>c \<in> set (components model). length c = n_columns sk X"
    by blast+
  with width have cols: "\<forall>c \<in> set (components model). length c = length ?vocab"
    by simp
  have perm: "set (argsort np c) = {..<length c}" for c
    using sorts by (simp add: sorting_permutation_def)
  have tw: "topic_words np model n ?vocab = Inr ?tw"
    using cols by (intro topic_words_ok) (simp add: perm)
  have run: "topic_extractor sk np e k n comments = Inr (printed ?tw)"
    by (simp add: topic_extractor_def fit display_topics_def tw)
  have len: "length ?tw = length (components model)"
    by simp
  have each: "let c = components model ! i; idx = word_idx np c n
                in ?tw ! i = (i, map ((!) ?vocab) idx)
                 \<and> printed ?tw ! (2 * i) = ''Topic: '' @ str_nat (i + 1)
                 \<and> printed ?tw ! (2 * i + 1) = ''Words:  '' @ join '', '' (snd (?tw ! i))
                 \<and> length (snd (?tw ! i)) = nat n
                 \<and> distinct idx
                 \<and> sorted_wrt (\<ge>) (map ((!) c) idx)
                 \<and> (\<forall>j < length c. j \<notin> set idx \<longrightarrow> (\<forall>i' \<in> set idx. c ! j \<le> c ! i'))"
    if i: "i < length ?tw" for i
  proof -
    let ?c = "components model ! i"
    from i have ic: "i < length (components model)"
      by simp
    then have "?c \<in> set (components model)"
      by simp
    with cols have lc: "length ?c = length ?vocab"
      by blast
    have nth: "?tw ! i = (i, map ((!) ?vocab) (word_idx np ?c n))"
      using ic by (simp add: nth_enumerate_eq)
    have sp: "sorting_permutation ?c (argsort np ?c)"
      using sorts by blast
    have n': "0 \<le> n" "nat n \<le> length ?c"
      using n lc by simp_all
    note props = word_idx_props [OF sp n']
    have pr: "printed ?tw ! (2 * i) = ''Topic: '' @ str_nat (i + 1)"
       "printed ?tw ! (2 * i + 1) = ''Words:  '' @ join '', '' (snd (?tw ! i))"
      using printed_nth [OF i] nth by simp_all
    have "length (snd (?tw ! i)) = nat n"
      by (simp add: nth props(1))
    with nth pr props(2,3,4) show ?thesis
      unfolding Let_def by blast
  qed
  from tw run len rows each show ?thesis
    by (intro exI [of _ ?tw]) (simp only: length_printed, blast)
qed

theorem report_has_k_topics_of_n_words_witness:
  "fit_transform stub_sklearn excerpt 2 [''bad service'', ''slow service, bad!'', ''so slow'']
     = Inr \<lparr> components = [[27, 23, 30], [23, 26, 29]],
             feature_names = [''service'', ''bad'', ''slow''] \<rparr>
   \<and> (\<exists>tw. topic_extractor stub_sklearn stable_numpy excerpt 2 2
              [''bad service'', ''slow service, bad!'', ''so slow''] = Inr (printed tw)
        \<and> int (length tw) = 2
        \<and> length (printed tw) = 2 * length tw
        \<and> (\<forall>i < length tw. length (snd (tw ! i)) = nat 2))
   \<and> topic_extractor stub_sklearn stable_numpy excerpt 2 2
        [''bad service'', ''slow service, bad!'', ''so slow'']
       = Inr [''Topic: 1'', ''Words:  slow, service'', ''Topic: 2'', ''Words:  slow, bad'']"
proof -
  let ?docs = "[''bad service'', ''slow service, bad!'', ''so slow'']"
  let ?model = "\<lparr> components = [[27, 23, 30], [23, 26, 29 :: int]],
                   feature_names = [''service'', ''bad'', ''slow''] \<rparr>"
  have tfidf: "\<forall>tokenizer docs X names.
                 fit_tfidf stub_sklearn tokenizer docs = Inr (X, names) \<longrightarrow>
                   n_columns stub_sklearn X = length names"
    using stub_tfidf_columns by blast
  have lda: "\<forall>n_components random_state X comps.
               fit_lda stub_sklearn n_components random_state X = Inr comps \<longrightarrow>
                 int (length comps) = n_components
                 \<and> (\<forall>c \<in> set comps. length c = n_columns stub_sklearn X)"
    using stub_lda_shape by blast
  have sorts: "\<forall>c :: int list. sorting_permutation c (argsort stable_numpy c)"
    by (simp add: stable_numpy_sorts)
  have fit: "fit_transform stub_sklearn excerpt 2 ?docs = Inr ?model"
    by code_simp
  have n: "(0::int) \<le> 2" "nat 2 \<le> length (feature_names ?model)"
    by simp_all
  have run: "topic_extractor stub_sklearn stable_numpy excerpt 2 2 ?docs
               = Inr [''Topic: 1'', ''Words:  slow, service'', ''Topic: 2'', ''Words:  slow, bad'']"
    by code_simp
  from report_has_k_topics_of_n_words [OF tfidf lda sorts fit n] obtain tw where
    "topic_extractor stub_sklearn stable_numpy excerpt 2 2 ?docs = Inr (printed tw)"
    "int (length tw) = 2" "length (printed tw) = 2 * length tw"
    "\<forall>i < length tw. length (snd (tw ! i)) = nat 2"
    unfolding Let_def by blast
  with fit run show ?thesis
    by blast
qed

text \<open>
  C10. The report of \<^verbatim>\<open>display_topics\<close> does not depend on its parameter
  \<^verbatim>\<open>model_pipeline\<close>: with the same global \<^verbatim>\<open>model\<close>, the same \<^verbatim>\<open>number_of_top_words\<close>
  and the same \<^verbatim>\<open>vocab\<close>, any two values of the parameter give the same result.
\<close>

theorem display_topics_ignores_model_pipeline:
  "display_topics np model number_of_top_words p1 vocab =
   display_topics np model number_of_top_words p2 vocab"
  by (simp add: display_topics_def)

text \<open>
  The report follows the global \<^verbatim>\<open>model\<close>: here the parameter holds other weights, whose
  top word would be \<^verbatim>\<open>a\<close>. The weights differ from each other, so every sort gives
  the same order.
\<close>

lemma display_topics_reads_global_model:
  "display_topics stable_numpy \<lparr> components = [[1, 5, 4::int]], feature_names = [] \<rparr> 1
       \<lparr> components = [[9, 0, 0::int]], feature_names = [] \<rparr> [''a'', ''b'', ''c'']
     = Inr [''Topic: 1'', ''Words:  b'']"
  by code_simp

end
